theory Spec2Isabelle
  imports Complex_Main
begin

section \<open>Resilience layer of elastic-rag: circuit breaker and health probes\<close>

text \<open>
  A shallow embedding of \<^verbatim>\<open>src/resilience/circuit_breaker.py\<close> and
  \<^verbatim>\<open>src/resilience/health_probes.py\<close>.

  Modelling conventions.
  \<^item> A naive \<^verbatim>\<open>datetime\<close> has microsecond resolution: it is an integer number of
    microseconds on the local clock. The difference of two of them is a \<^verbatim>\<open>timedelta\<close>,
    again a number of microseconds (possibly negative: the local clock may be set back).
  \<^item> \<^verbatim>\<open>timedelta.total_seconds()\<close> is the number of microseconds divided by \<open>10^6\<close>. Python
    returns the nearest float; the model keeps the exact rational.
  \<^item> Every reading of \<^verbatim>\<open>datetime.now()\<close> is an explicit argument of the function that reads
    the clock, one argument for each place of the source that reads it.
  \<^item> The wrapped operation and the external dependencies act on a world \<open>'w\<close>: they take
    the world and return an outcome with the world after them. A function that does not
    invoke them returns the world it was given.
  \<^item> The reentrant lock has no effect on a sequential run and is not modelled; a call is
    one step.
  \<^item> Names of the source that start with an underscore lose it
    (\<^verbatim>\<open>_on_success\<close> is \<open>on_success\<close>), and \<^verbatim>\<open>__init__\<close> is \<open>init\<close>.
\<close>

subsection \<open>Time\<close>

type_synonym datetime = int
type_synonym timedelta = int

definition total_seconds :: "timedelta \<Rightarrow> rat" where
  "total_seconds d = of_int d / 1000000"

subsection \<open>Exceptions\<close>

text \<open>
  The message of a \<^verbatim>\<open>CircuitBreakerError\<close> is one of two f-strings. The model keeps which of
  the two it is and the number it prints: \<open>Open_retry_in remaining\<close> for
  \<^verbatim>\<open>"Circuit breaker is OPEN. Service unavailable. Retry in {remaining:.1f} seconds."\<close> and
  \<open>Half_open_max_calls_exceeded n\<close> for
  \<^verbatim>\<open>"Circuit breaker HALF_OPEN max calls ({n}) exceeded. Please wait for recovery."\<close>.
\<close>

datatype cbe_message =
    Open_retry_in rat
  | Half_open_max_calls_exceeded int

text \<open>
  A raised Python object other than a \<^verbatim>\<open>CircuitBreakerError\<close>, with the name of its class
  and its \<^verbatim>\<open>str()\<close>. \<open>Exception cls msg\<close> is an instance of a class derived from
  \<^verbatim>\<open>Exception\<close>; \<open>TimeoutException cls msg\<close> is one of these whose class also derives from
  \<^verbatim>\<open>httpx.TimeoutException\<close>; \<open>BaseException cls msg\<close> is an instance of a class derived
  from \<^verbatim>\<open>BaseException\<close> but not from \<^verbatim>\<open>Exception\<close> (\<^verbatim>\<open>KeyboardInterrupt\<close>,
  \<^verbatim>\<open>SystemExit\<close>, \<^verbatim>\<open>asyncio.CancelledError\<close>): a handler \<^verbatim>\<open>except Exception\<close> does not
  catch it.
\<close>

datatype py_exception =
    Exception string string
  | TimeoutException string string
  | BaseException string string

fun isinstance_Exception :: "py_exception \<Rightarrow> bool" where
  "isinstance_Exception (Exception _ _) = True"
| "isinstance_Exception (TimeoutException _ _) = True"
| "isinstance_Exception (BaseException _ _) = False"

fun isinstance_TimeoutException :: "py_exception \<Rightarrow> bool" where
  "isinstance_TimeoutException (TimeoutException _ _) = True"
| "isinstance_TimeoutException _ = False"

fun str_exception :: "py_exception \<Rightarrow> string" where
  "str_exception (Exception _ msg) = msg"
| "str_exception (TimeoutException _ msg) = msg"
| "str_exception (BaseException _ msg) = msg"

text \<open>
  What \<^verbatim>\<open>CircuitBreaker.call\<close> and the operation it wraps can raise: the breaker's own
  \<^verbatim>\<open>CircuitBreakerError\<close> (which derives from \<^verbatim>\<open>Exception\<close>) or any other Python object.
  Invoking a callable gives \<open>Inr\<close> of the value it returns or \<open>Inl\<close> of what it raises.
\<close>

datatype exn =
    CircuitBreakerError cbe_message
  | Other_exception py_exception

fun caught_by_except_Exception :: "exn \<Rightarrow> bool" where
  "caught_by_except_Exception (CircuitBreakerError _) = True"
| "caught_by_except_Exception (Other_exception e) = isinstance_Exception e"

subsection \<open>The circuit breaker\<close>

datatype CircuitState = CLOSED | OPEN | HALF_OPEN

record CircuitBreaker =
  failure_threshold :: int
  timeout :: int
  half_open_max_calls :: int
  state :: CircuitState
  failure_count :: int
  last_failure_time :: "datetime option"
  half_open_calls :: int

text \<open>
  The three values \<^verbatim>\<open>__init__\<close> reads from \<^verbatim>\<open>get_settings().circuit_breaker\<close>. The field
  validator of \<^verbatim>\<open>CircuitBreakerSettings\<close> refuses a value that is not positive.
\<close>

record CircuitBreakerSettings =
  settings_failure_threshold :: int
  settings_timeout_seconds :: int
  settings_half_open_max_calls :: int

definition validate_positive :: "int \<Rightarrow> py_exception + int" where
  "validate_positive v =
     (if v \<le> 0 then Inl (Exception ''ValueError'' ''Circuit breaker values must be positive integers'')
      else Inr v)"

definition init :: "CircuitBreakerSettings \<Rightarrow> CircuitBreaker" where
  "init settings =
     \<lparr> failure_threshold = settings_failure_threshold settings,
       timeout = settings_timeout_seconds settings,
       half_open_max_calls = settings_half_open_max_calls settings,
       state = CLOSED,
       failure_count = 0,
       last_failure_time = None,
       half_open_calls = 0 \<rparr>"

definition should_attempt_reset :: "CircuitBreaker \<Rightarrow> datetime \<Rightarrow> bool" where
  "should_attempt_reset self now =
     (case last_failure_time self of
        None \<Rightarrow> True
      | Some t \<Rightarrow> total_seconds (now - t) \<ge> of_int (timeout self))"

definition on_success :: "CircuitBreaker \<Rightarrow> CircuitBreaker" where
  "on_success self =
     (if state self = HALF_OPEN then
        (let self1 = self\<lparr>half_open_calls := half_open_calls self + 1\<rparr>
         in if half_open_calls self1 \<ge> half_open_max_calls self1
            then self1\<lparr>state := CLOSED, failure_count := 0, half_open_calls := 0,
                       last_failure_time := None\<rparr>
            else self1)
      else if state self = CLOSED then
        (if failure_count self > 0 then self\<lparr>failure_count := 0\<rparr> else self)
      else self)"

definition on_failure :: "CircuitBreaker \<Rightarrow> datetime \<Rightarrow> exn \<Rightarrow> CircuitBreaker" where
  "on_failure self now exception =
     (let self1 = self\<lparr>failure_count := failure_count self + 1, last_failure_time := Some now\<rparr>
      in if state self1 = HALF_OPEN then self1\<lparr>state := OPEN, half_open_calls := 0\<rparr>
         else if state self1 = CLOSED then
           (if failure_count self1 \<ge> failure_threshold self1 then self1\<lparr>state := OPEN\<rparr>
            else self1)
         else self1)"

text \<open>
  The locked block at the head of \<^verbatim>\<open>call\<close> (lines 101 to 128): it either raises a
  \<^verbatim>\<open>CircuitBreakerError\<close> or lets the call through, and in both cases it may have moved the
  breaker from \<open>OPEN\<close> to \<open>HALF_OPEN\<close>. \<open>now_reset\<close> is the clock read by
  \<^verbatim>\<open>_should_attempt_reset\<close>, \<open>now_msg\<close> the clock read again for the message.
\<close>

definition call_admission ::
  "CircuitBreaker \<Rightarrow> datetime \<Rightarrow> datetime \<Rightarrow> exn option \<times> CircuitBreaker" where
  "call_admission self now_reset now_msg =
     (let (raised, self1) =
        (if state self = OPEN then
           (if should_attempt_reset self now_reset
            then (None, self\<lparr>state := HALF_OPEN, half_open_calls := 0\<rparr>)
            else
              (let elapsed = (case last_failure_time self of
                                Some t \<Rightarrow> total_seconds (now_msg - t)
                              | None \<Rightarrow> 0);
                   remaining = max 0 (of_int (timeout self) - elapsed)
               in (Some (CircuitBreakerError (Open_retry_in remaining)), self)))
         else (None, self))
      in case raised of
           Some e \<Rightarrow> (Some e, self1)
         | None \<Rightarrow>
             if state self1 = HALF_OPEN \<and> half_open_calls self1 \<ge> half_open_max_calls self1
             then (Some (CircuitBreakerError
                           (Half_open_max_calls_exceeded (half_open_max_calls self1))), self1)
             else (None, self1))"

text \<open>
  \<^verbatim>\<open>call(func)\<close>. \<open>now_fail\<close> is the clock read by \<^verbatim>\<open>_on_failure\<close>. The handler
  \<^verbatim>\<open>except Exception as e\<close> records and re-raises an instance of \<^verbatim>\<open>Exception\<close>; anything
  else the operation raises passes through with nothing recorded.
\<close>

definition call ::
  "CircuitBreaker \<Rightarrow> datetime \<Rightarrow> datetime \<Rightarrow> datetime \<Rightarrow> ('w \<Rightarrow> (exn + 'a) \<times> 'w) \<Rightarrow> 'w
     \<Rightarrow> (exn + 'a) \<times> CircuitBreaker \<times> 'w" where
  "call self now_reset now_msg now_fail func w =
     (case call_admission self now_reset now_msg of
        (Some e, self1) \<Rightarrow> (Inl e, self1, w)
      | (None, self1) \<Rightarrow>
          (case func w of
             (Inr result, w') \<Rightarrow> (Inr result, on_success self1, w')
           | (Inl e, w') \<Rightarrow>
               if caught_by_except_Exception e then (Inl e, on_failure self1 now_fail e, w')
               else (Inl e, self1, w')))"

definition is_open :: "CircuitBreaker \<Rightarrow> bool" where
  "is_open self = (state self = OPEN)"

definition is_closed :: "CircuitBreaker \<Rightarrow> bool" where
  "is_closed self = (state self = CLOSED)"

definition is_half_open :: "CircuitBreaker \<Rightarrow> bool" where
  "is_half_open self = (state self = HALF_OPEN)"

record state_info =
  info_state :: string
  info_failure_count :: int
  info_last_failure :: "datetime option"
  info_half_open_calls :: int

fun state_value :: "CircuitState \<Rightarrow> string" where
  "state_value CLOSED = ''closed''"
| "state_value OPEN = ''open''"
| "state_value HALF_OPEN = ''half_open''"

definition get_state :: "CircuitBreaker \<Rightarrow> state_info" where
  "get_state self =
     \<lparr> info_state = state_value (state self),
       info_failure_count = failure_count self,
       info_last_failure = last_failure_time self,
       info_half_open_calls = half_open_calls self \<rparr>"

definition reset :: "CircuitBreaker \<Rightarrow> CircuitBreaker" where
  "reset self =
     self\<lparr>state := CLOSED, failure_count := 0, last_failure_time := None, half_open_calls := 0\<rparr>"

text \<open>
  A sequential run of the public methods on one breaker. The state the breaker is left in
  depends on the wrapped operation only through its outcome (see \<open>call_state_outcome\<close>
  below), so an event records the clock readings of the call and whether the operation
  returned or what it raised. The accessors only read.
\<close>

datatype event =
    Call datetime datetime datetime "exn + unit"
  | Reset
  | Get_state
  | Is_open
  | Is_closed
  | Is_half_open

fun step :: "CircuitBreaker \<Rightarrow> event \<Rightarrow> CircuitBreaker" where
  "step self (Call now_reset now_msg now_fail r) =
     fst (snd (call self now_reset now_msg now_fail (\<lambda>w. (r, w)) ()))"
| "step self Reset = reset self"
| "step self Get_state = self"
| "step self Is_open = self"
| "step self Is_closed = self"
| "step self Is_half_open = self"

definition run :: "CircuitBreaker \<Rightarrow> event list \<Rightarrow> CircuitBreaker" where
  "run self evs = foldl step self evs"

text \<open>
  Whether \<^verbatim>\<open>timeout\<close> seconds have passed at clock reading \<open>now\<close> since the last recorded
  failure (the comparison of \<^verbatim>\<open>_should_attempt_reset\<close>).
\<close>

definition cooldown_elapsed :: "CircuitBreaker \<Rightarrow> datetime \<Rightarrow> bool" where
  "cooldown_elapsed self now =
     (case last_failure_time self of
        None \<Rightarrow> True
      | Some t \<Rightarrow> total_seconds (now - t) \<ge> of_int (timeout self))"

text \<open>
  The events the claims speak of. A failing call is one whose operation raises an instance
  of \<^verbatim>\<open>Exception\<close>; a successful call is one whose operation returns. A call is a
  \<open>HALF_OPEN\<close> trial when the locked block lets it through with the breaker \<open>HALF_OPEN\<close>
  (it was so already, or this call moved it there from \<open>OPEN\<close>).
\<close>

fun failing_call :: "event \<Rightarrow> bool" where
  "failing_call (Call _ _ _ (Inl e)) = caught_by_except_Exception e"
| "failing_call _ = False"

fun successful_call :: "event \<Rightarrow> bool" where
  "successful_call (Call _ _ _ (Inr _)) = True"
| "successful_call _ = False"

fun half_open_trial :: "CircuitBreaker \<Rightarrow> event \<Rightarrow> bool" where
  "half_open_trial self (Call now_reset now_msg _ _) =
     (case call_admission self now_reset now_msg of
        (None, self1) \<Rightarrow> state self1 = HALF_OPEN
      | (Some _, _) \<Rightarrow> False)"
| "half_open_trial self _ = False"

text \<open>
  An event trips the breaker when it is a failing call and either the breaker is \<open>CLOSED\<close>
  and the failure brings \<open>failure_count\<close> to \<open>failure_threshold\<close>, or the call is a
  \<open>HALF_OPEN\<close> trial.
\<close>

definition trips :: "CircuitBreaker \<Rightarrow> event \<Rightarrow> bool" where
  "trips self ev =
     (failing_call ev \<and>
      ((state self = CLOSED \<and> failure_count self + 1 \<ge> failure_threshold self) \<or>
       half_open_trial self ev))"

text \<open>
  An event leaves the cooldown pending when it is a read-only accessor, or a call whose
  first clock reading finds that the cooldown has not elapsed.
\<close>

fun cooldown_pending :: "CircuitBreaker \<Rightarrow> event \<Rightarrow> bool" where
  "cooldown_pending self (Call now_reset _ _ _) = (\<not> cooldown_elapsed self now_reset)"
| "cooldown_pending self Reset = False"
| "cooldown_pending self _ = True"

text \<open>
  Some event of the run trips the breaker, and every event after it leaves the cooldown
  pending.
\<close>

fun tripped_and_pending :: "CircuitBreaker \<Rightarrow> event list \<Rightarrow> bool" where
  "tripped_and_pending self [] = False"
| "tripped_and_pending self (ev # evs) =
     ((trips self ev \<and> list_all (cooldown_pending (step self ev)) evs) \<or>
      tripped_and_pending (step self ev) evs)"

text \<open>
  Some event of the run takes the breaker from another state into \<open>OPEN\<close>.
\<close>

fun opened :: "CircuitBreaker \<Rightarrow> event list \<Rightarrow> bool" where
  "opened self [] = False"
| "opened self (ev # evs) =
     ((state self \<noteq> OPEN \<and> state (step self ev) = OPEN) \<or> opened (step self ev) evs)"

subsection \<open>The health probes\<close>

text \<open>
  A probe returns a dictionary of strings, booleans and dictionaries; the model keeps the
  insertion order of the keys. \<open>Isoformat t\<close> is the string
  \<^verbatim>\<open>datetime.isoformat()\<close> gives for \<open>t\<close>.
\<close>

datatype pyval =
    Str string
  | Bool bool
  | Isoformat datetime
  | Dict "(string \<times> pyval) list"

text \<open>
  The part of the settings the probes read, and the one flag they write.
  \<open>llm_base_url\<close> is \<open>None\<close> when \<^verbatim>\<open>settings.llm\<close> is not configured.
\<close>

record HealthProbes =
  elasticsearch_url :: string
  llm_base_url :: "string option"
  lmstudio_base_url :: string
  check_timeout :: int
  startup_complete :: bool

text \<open>
  The two external collaborators. \<open>es_cluster_health url timeout\<close> builds the client for the
  host and asks for the cluster health: it returns the response dictionary or raises.
  \<open>http_get url timeout\<close> sends the GET request: it returns the status code of the response or
  raises.
\<close>

record 'w dependencies =
  es_cluster_health :: "string \<Rightarrow> int \<Rightarrow> 'w \<Rightarrow> (py_exception + (string \<times> string) list) \<times> 'w"
  http_get :: "string \<Rightarrow> int \<Rightarrow> 'w \<Rightarrow> (py_exception + int) \<times> 'w"

definition init_probes :: "string \<Rightarrow> string option \<Rightarrow> string \<Rightarrow> int \<Rightarrow> HealthProbes" where
  "init_probes es_url llm_url lmstudio_url t =
     \<lparr> elasticsearch_url = es_url, llm_base_url = llm_url, lmstudio_base_url = lmstudio_url,
       check_timeout = t, startup_complete = False \<rparr>"

definition liveness :: "HealthProbes \<Rightarrow> datetime \<Rightarrow> py_exception + (string \<times> pyval) list" where
  "liveness self utcnow =
     Inr [(''status'', Str ''healthy''), (''timestamp'', Isoformat utcnow),
          (''probe'', Str ''liveness'')]"

text \<open>
  \<^verbatim>\<open>_check_elasticsearch\<close>: the result is \<open>Inr\<close> of the boolean it returns, or \<open>Inl\<close> of
  what it lets through. A response without the key \<^verbatim>\<open>"status"\<close> raises \<^verbatim>\<open>KeyError\<close> inside
  the \<^verbatim>\<open>try\<close>.
\<close>

definition check_elasticsearch ::
  "HealthProbes \<Rightarrow> 'w dependencies \<Rightarrow> 'w \<Rightarrow> (py_exception + bool) \<times> 'w" where
  "check_elasticsearch self deps w =
     (let (tried, w') =
        (case es_cluster_health deps (elasticsearch_url self) (check_timeout self) w of
           (Inl e, w') \<Rightarrow> (Inl e, w')
         | (Inr health, w') \<Rightarrow>
             (case map_of health ''status'' of
                None \<Rightarrow> (Inl (Exception ''KeyError'' ''status''), w')
              | Some status \<Rightarrow> (Inr (status \<in> set [''green'', ''yellow'']), w')))
      in case tried of
           Inr is_healthy \<Rightarrow> (Inr is_healthy, w')
         | Inl e \<Rightarrow> if isinstance_Exception e then (Inr False, w') else (Inl e, w'))"

definition check_lmstudio ::
  "HealthProbes \<Rightarrow> 'w dependencies \<Rightarrow> 'w \<Rightarrow> (py_exception + bool) \<times> 'w" where
  "check_lmstudio self deps w =
     (let base_url = (case llm_base_url self of Some u \<Rightarrow> u | None \<Rightarrow> lmstudio_base_url self)
      in case http_get deps (base_url @ ''/models'') (check_timeout self) w of
           (Inr status_code, w') \<Rightarrow> (Inr (status_code = 200), w')
         | (Inl e, w') \<Rightarrow>
             if isinstance_TimeoutException e then (Inr False, w')
             else if isinstance_Exception e then (Inr False, w')
             else (Inl e, w'))"

definition health_text :: "bool \<Rightarrow> string" where
  "health_text b = (if b then ''healthy'' else ''unhealthy'')"

definition readiness ::
  "HealthProbes \<Rightarrow> 'w dependencies \<Rightarrow> datetime \<Rightarrow> 'w
     \<Rightarrow> (py_exception + (string \<times> pyval) list) \<times> 'w" where
  "readiness self deps utcnow w =
     (case check_elasticsearch self deps w of
        (Inl e, w1) \<Rightarrow> (Inl e, w1)
      | (Inr es_healthy, w1) \<Rightarrow>
          (case check_lmstudio self deps w1 of
             (Inl e, w2) \<Rightarrow> (Inl e, w2)
           | (Inr lm_healthy, w2) \<Rightarrow>
               (let checks =
                      [(''elasticsearch'',
                          Dict [(''status'', Str (health_text es_healthy)), (''required'', Bool True)]),
                       (''lmstudio'',
                          Dict [(''status'', Str (health_text lm_healthy)), (''required'', Bool True)])];
                    overall_healthy = ((True \<and> es_healthy) \<and> lm_healthy)
                in (Inr [(''status'', Str (health_text overall_healthy)),
                         (''timestamp'', Isoformat utcnow),
                         (''probe'', Str ''readiness''),
                         (''checks'', Dict checks)], w2))))"

definition startup ::
  "HealthProbes \<Rightarrow> 'w dependencies \<Rightarrow> datetime \<Rightarrow> 'w
     \<Rightarrow> (py_exception + (string \<times> pyval) list) \<times> HealthProbes \<times> 'w" where
  "startup self deps utcnow w =
     (if \<not> startup_complete self then
        (let (tried, self1, w1) =
           (case check_elasticsearch self deps w of
              (Inl e, w') \<Rightarrow> (Inl e, self, w')
            | (Inr ok, w') \<Rightarrow>
                if \<not> ok then (Inl (Exception ''RuntimeError'' ''Elasticsearch not accessible''), self, w')
                else (Inr (), self\<lparr>startup_complete := True\<rparr>, w'))
         in case tried of
              Inl e \<Rightarrow>
                if isinstance_Exception e
                then (Inr [(''status'', Str ''unhealthy''), (''timestamp'', Isoformat utcnow),
                           (''probe'', Str ''startup''), (''error'', Str (str_exception e))],
                      self1, w1)
                else (Inl e, self1, w1)
            | Inr _ \<Rightarrow>
                (Inr [(''status'', Str ''healthy''), (''timestamp'', Isoformat utcnow),
                      (''probe'', Str ''startup'')], self1, w1))
      else
        (Inr [(''status'', Str ''healthy''), (''timestamp'', Isoformat utcnow),
              (''probe'', Str ''startup'')], self, w))"

definition reset_startup :: "HealthProbes \<Rightarrow> HealthProbes" where
  "reset_startup self = self\<lparr>startup_complete := False\<rparr>"

text \<open>
  A sequence of probe calls on one instance, each with its reading of the clock; a probe
  that raises does not stop the caller from probing again.
\<close>

datatype probe = Liveness datetime | Readiness datetime | Startup datetime

fun probe_step :: "'w dependencies \<Rightarrow> HealthProbes \<times> 'w \<Rightarrow> probe \<Rightarrow> HealthProbes \<times> 'w" where
  "probe_step deps (self, w) (Liveness t) = (self, w)"
| "probe_step deps (self, w) (Readiness t) = (self, snd (readiness self deps t w))"
| "probe_step deps (self, w) (Startup t) = snd (startup self deps t w)"

definition run_probes ::
  "'w dependencies \<Rightarrow> HealthProbes \<times> 'w \<Rightarrow> probe list \<Rightarrow> HealthProbes \<times> 'w" where
  "run_probes deps sw ps = foldl (probe_step deps) sw ps"

text \<open>
  A spy on the search engine, as a test would install it: the world is paired with the number
  of times the cluster health has been asked for.
\<close>

definition spy :: "'w dependencies \<Rightarrow> (nat \<times> 'w) dependencies" where
  "spy deps =
     \<lparr> es_cluster_health = (\<lambda>url t (n, w).
          case es_cluster_health deps url t w of (r, w') \<Rightarrow> (r, (Suc n, w'))),
       http_get = (\<lambda>url t (n, w).
          case http_get deps url t w of (r, w') \<Rightarrow> (r, (n, w'))) \<rparr>"

text \<open>The dependencies raise nothing but instances of \<^verbatim>\<open>Exception\<close>.\<close>

definition raises_only_Exception :: "'w dependencies \<Rightarrow> bool" where
  "raises_only_Exception deps =
     ((\<forall>url t w e w'. es_cluster_health deps url t w = (Inl e, w') \<longrightarrow> isinstance_Exception e) \<and>
      (\<forall>url t w e w'. http_get deps url t w = (Inl e, w') \<longrightarrow> isinstance_Exception e))"

subsection \<open>Concrete inputs\<close>



text \<open>
  The settings of the concrete scenario of the specification: \<^verbatim>\<open>failure_threshold=5\<close>,
  \<^verbatim>\<open>timeout=3\<close>, \<^verbatim>\<open>half_open_max_calls=2\<close>.
\<close>

definition sample_settings :: CircuitBreakerSettings where
  "sample_settings =
     \<lparr> settings_failure_threshold = 5, settings_timeout_seconds = 3,
       settings_half_open_max_calls = 2 \<rparr>"

text \<open>
  A call at clock reading \<open>t\<close> whose operation raises \<^verbatim>\<open>RuntimeError("Service unavailable")\<close>,
  and one whose operation returns.
\<close>

definition failure_at :: "datetime \<Rightarrow> event" where
  "failure_at t =
     Call t t t (Inl (Other_exception (Exception ''RuntimeError'' ''Service unavailable'')))"

definition success_at :: "datetime \<Rightarrow> event" where
  "success_at t = Call t t t (Inr ())"

text \<open>Five failures, one second apart.\<close>

definition opening_run :: "event list" where
  "opening_run = map failure_at [1000000, 2000000, 3000000, 4000000, 5000000]"

text \<open>A breaker in the middle of its recovery, with one trial left.\<close>

definition half_open_breaker :: CircuitBreaker where
  "half_open_breaker =
     \<lparr> failure_threshold = 5, timeout = 3, half_open_max_calls = 2, state = HALF_OPEN,
       failure_count = 5, last_failure_time = Some 0, half_open_calls = 1 \<rparr>"

text \<open>
  An operation that counts its invocations in the world and raises
  \<^verbatim>\<open>ValueError("Custom error message")\<close>.
\<close>

definition counting_failure :: "nat \<Rightarrow> (exn + unit) \<times> nat" where
  "counting_failure n =
     (Inl (Other_exception (Exception ''ValueError'' ''Custom error message'')), Suc n)"

text \<open>
  A probe object as \<^verbatim>\<open>__init__\<close> leaves it, and dependencies that answer every request in
  the same way and leave the world as it is.
\<close>

definition sample_probes :: HealthProbes where
  "sample_probes = init_probes ''http://localhost:9200'' None ''http://localhost:1234/v1'' 5"

definition fixed_deps ::
  "(py_exception + (string \<times> string) list) \<Rightarrow> (py_exception + int) \<Rightarrow> unit dependencies" where
  "fixed_deps es http =
     \<lparr> es_cluster_health = (\<lambda>url t w. (es, w)), http_get = (\<lambda>url t w. (http, w)) \<rparr>"

text \<open>The search engine refuses the connection and the model endpoint times out.\<close>

definition outage :: "unit dependencies" where
  "outage = fixed_deps (Inl (Exception ''ConnectionError'' ''Connection refused''))
                       (Inl (TimeoutException ''ConnectTimeout'' ''timed out''))"

section \<open>Properties\<close>

subsection \<open>Calls on an open breaker\<close>





subsection \<open>Runs of events\<close>

lemma run_Nil: "run self [] = self"
  by (simp add: run_def)

lemma run_Cons: "run self (ev # evs) = run (step self ev) evs"
  by (simp add: run_def)

lemma run_append: "run self (xs @ ys) = run (run self xs) ys"
  by (simp add: run_def)

lemma run_snoc: "run self (evs @ [ev]) = step (run self evs) ev"
  by (simp add: run_def)

lemma call_state_outcome:
  "fst (snd (call self now_reset now_msg now_fail func w)) =
     step self (Call now_reset now_msg now_fail (map_sum id (\<lambda>_. ()) (fst (func w))))"
  by (cases "func w"; cases "fst (func w)")
     (auto simp: call_def split: prod.splits option.splits sum.splits)

text \<open>The configuration of a breaker never changes.\<close>

lemma step_config:
  "failure_threshold (step self ev) = failure_threshold self \<and>
   timeout (step self ev) = timeout self \<and>
   half_open_max_calls (step self ev) = half_open_max_calls self"
  by (cases ev)
     (auto simp: call_def call_admission_def on_failure_def on_success_def reset_def Let_def
           split: sum.splits)

lemma run_config:
  "failure_threshold (run self evs) = failure_threshold self \<and>
   timeout (run self evs) = timeout self \<and>
   half_open_max_calls (run self evs) = half_open_max_calls self"
  by (induction evs arbitrary: self) (simp_all add: run_Nil run_Cons step_config)

lemma opening_run_state:
  "run (init sample_settings) opening_run =
     \<lparr> failure_threshold = 5, timeout = 3, half_open_max_calls = 2, state = OPEN,
       failure_count = 5, last_failure_time = Some 5000000, half_open_calls = 0 \<rparr>"
  by (simp add: opening_run_def sample_settings_def failure_at_def init_def run_def call_def
        call_admission_def on_failure_def Let_def)

lemma probing_run_state:
  "run (init sample_settings) (opening_run @ [success_at 8000000]) =
     \<lparr> failure_threshold = 5, timeout = 3, half_open_max_calls = 2, state = HALF_OPEN,
       failure_count = 5, last_failure_time = Some 5000000, half_open_calls = 1 \<rparr>"
  by (simp add: run_append opening_run_state)
     (simp add: run_def success_at_def call_def call_admission_def should_attempt_reset_def
        total_seconds_def on_success_def Let_def)

subsection \<open>Consecutive failures\<close>

lemma step_failing_closed:
  assumes "state self = CLOSED" and "failing_call ev"
  shows "state (step self ev) =
           (if failure_count self + 1 \<ge> failure_threshold self then OPEN else CLOSED)"
    and "failure_count (step self ev) = failure_count self + 1"
    and "failure_threshold (step self ev) = failure_threshold self"
    and "timeout (step self ev) = timeout self"
    and "half_open_max_calls (step self ev) = half_open_max_calls self"
    and "half_open_calls (step self ev) = half_open_calls self"
    and "\<exists>t. last_failure_time (step self ev) = Some t"
  using assms
  by (cases ev rule: failing_call.cases;
      simp add: call_def call_admission_def on_failure_def Let_def)+

lemma step_successful_closed:
  assumes "state self = CLOSED" and "successful_call ev" and "0 \<le> failure_count self"
  shows "step self ev = self\<lparr>failure_count := 0\<rparr>"
  using assms
  by (cases self; cases ev rule: successful_call.cases)
     (auto simp: call_def call_admission_def on_success_def)

lemma closed_failures:
  "state self = CLOSED \<Longrightarrow> list_all failing_call evs \<Longrightarrow>
   failure_count self + int (length evs) < failure_threshold self \<Longrightarrow>
   state (run self evs) = CLOSED \<and>
   failure_count (run self evs) = failure_count self + int (length evs) \<and>
   failure_threshold (run self evs) = failure_threshold self \<and>
   timeout (run self evs) = timeout self \<and>
   half_open_max_calls (run self evs) = half_open_max_calls self \<and>
   half_open_calls (run self evs) = half_open_calls self"
proof (induction evs arbitrary: self)
  case Nil
  then show ?case by (simp add: run_Nil)
next
  case (Cons ev evs)
  have fc: "failing_call ev" and rest: "list_all failing_call evs"
    using Cons.prems by simp_all
  note st = step_failing_closed [OF Cons.prems(1) fc]
  have lt: "failure_count self + 1 < failure_threshold self" using Cons.prems by simp
  have "state (step self ev) = CLOSED" using st(1) lt by simp
  moreover have "failure_count (step self ev) + int (length evs) < failure_threshold (step self ev)"
    using st(2,3) Cons.prems by simp
  ultimately show ?case
    using Cons.IH [of "step self ev"] rest st by (simp add: run_Cons)
qed

text \<open>
  Claim C2. Let the breaker be \<open>CLOSED\<close> with \<open>failure_count = 0\<close> and a positive
  \<open>failure_threshold\<close>, and let \<open>evs\<close> be \<open>failure_threshold - 1\<close> failing calls in a row.
  After them the breaker is still \<open>CLOSED\<close>, with \<open>failure_count = failure_threshold - 1\<close>.
  One more failing call opens it. A successful call instead leaves it \<open>CLOSED\<close> with
  \<open>failure_count = 0\<close>, so that another \<open>failure_threshold - 1\<close> failing calls still leave it
  \<open>CLOSED\<close>: the failures counted are the consecutive ones.
\<close>

theorem failures_counted_consecutively:
  assumes "state self = CLOSED" and "failure_count self = 0" and "1 \<le> failure_threshold self"
    and "list_all failing_call evs" and "int (length evs) = failure_threshold self - 1"
  shows "state (run self evs) = CLOSED \<and>
         failure_count (run self evs) = failure_threshold self - 1 \<and>
         (failing_call ev \<longrightarrow> state (step (run self evs) ev) = OPEN) \<and>
         (successful_call ev \<longrightarrow>
            state (step (run self evs) ev) = CLOSED \<and>
            failure_count (step (run self evs) ev) = 0 \<and>
            (list_all failing_call evs' \<and> int (length evs') = failure_threshold self - 1 \<longrightarrow>
               state (run (step (run self evs) ev) evs') = CLOSED))"
proof -
  have lt: "failure_count self + int (length evs) < failure_threshold self"
    using assms by simp
  note cf = closed_failures [OF assms(1) assms(4) lt]
  have a: "state (run self evs) = CLOSED" using cf by simp
  have b: "failure_count (run self evs) = failure_threshold self - 1"
    using cf assms by simp
  have c: "state (step (run self evs) ev) = OPEN" if "failing_call ev"
    using step_failing_closed(1) [OF a that] b cf by simp
  have d: "state (step (run self evs) ev) = CLOSED \<and>
            failure_count (step (run self evs) ev) = 0 \<and>
            (list_all failing_call evs' \<and> int (length evs') = failure_threshold self - 1 \<longrightarrow>
               state (run (step (run self evs) ev) evs') = CLOSED)" if s: "successful_call ev"
  proof -
    have nonneg: "0 \<le> failure_count (run self evs)" using b assms(3) by simp
    have eq: "step (run self evs) ev = (run self evs)\<lparr>failure_count := 0\<rparr>"
      using step_successful_closed [OF a s nonneg] .
    have s1: "state (step (run self evs) ev) = CLOSED" using eq a by simp
    have s2: "failure_count (step (run self evs) ev) = 0" using eq by simp
    have s3: "failure_threshold (step (run self evs) ev) = failure_threshold self"
      using eq cf by simp
    have "state (run (step (run self evs) ev) evs') = CLOSED"
      if h: "list_all failing_call evs' \<and> int (length evs') = failure_threshold self - 1"
    proof -
      have "failure_count (step (run self evs) ev) + int (length evs')
              < failure_threshold (step (run self evs) ev)"
        using s2 s3 h by simp
      then show ?thesis
        using closed_failures [OF s1, of evs'] h by simp
    qed
    then show ?thesis using s1 s2 by simp
  qed
  show ?thesis using a b c d by simp
qed

text \<open>
  With a threshold of five: four failures leave the breaker closed, the fifth opens it, and
  a success after the four lets it stand four more.
\<close>

theorem failures_counted_consecutively_witness:
  "state (run (init sample_settings) (map failure_at [1, 2, 3, 4])) = CLOSED \<and>
   failure_count (run (init sample_settings) (map failure_at [1, 2, 3, 4])) = 4 \<and>
   state (step (run (init sample_settings) (map failure_at [1, 2, 3, 4])) (failure_at 5)) = OPEN \<and>
   failure_count (step (run (init sample_settings) (map failure_at [1, 2, 3, 4])) (success_at 5)) = 0 \<and>
   state (run (step (run (init sample_settings) (map failure_at [1, 2, 3, 4])) (success_at 5))
             (map failure_at [6, 7, 8, 9])) = CLOSED"
  using failures_counted_consecutively
          [of "init sample_settings" "map failure_at [1, 2, 3, 4]" "failure_at 5" "[]"]
        failures_counted_consecutively
          [of "init sample_settings" "map failure_at [1, 2, 3, 4]" "success_at 5"
              "map failure_at [6, 7, 8, 9]"]
  by (simp add: sample_settings_def failure_at_def success_at_def init_def)

subsection \<open>Failures of admitted calls\<close>

text \<open>
  Claim C3. Let the breaker admit the call (it is \<open>CLOSED\<close>, or \<open>HALF_OPEN\<close> with
  \<open>half_open_calls < half_open_max_calls\<close>) and let the operation raise an instance \<open>e\<close> of
  \<^verbatim>\<open>Exception\<close>. Then \<open>call\<close> raises \<open>e\<close> itself, after \<^verbatim>\<open>_on_failure\<close> has recorded it:
  \<open>failure_count\<close> is one more, \<open>last_failure_time\<close> is the clock reading of the handler,
  and a \<open>HALF_OPEN\<close> breaker is \<open>OPEN\<close> again with \<open>half_open_calls = 0\<close>. What is raised is a
  \<^verbatim>\<open>CircuitBreakerError\<close> only if the operation raised that very error.
\<close>

theorem admitted_failure_recorded_and_reraised:
  assumes "state self = CLOSED \<or>
             (state self = HALF_OPEN \<and> half_open_calls self < half_open_max_calls self)"
    and "func w = (Inl e, w')" and "caught_by_except_Exception e"
  shows "call self now_reset now_msg now_fail func w = (Inl e, on_failure self now_fail e, w') \<and>
         failure_count (on_failure self now_fail e) = failure_count self + 1 \<and>
         last_failure_time (on_failure self now_fail e) = Some now_fail \<and>
         (state self = HALF_OPEN \<longrightarrow>
            state (on_failure self now_fail e) = OPEN \<and>
            half_open_calls (on_failure self now_fail e) = 0) \<and>
         (\<forall>m. fst (call self now_reset now_msg now_fail func w) = Inl (CircuitBreakerError m) \<longrightarrow>
                e = CircuitBreakerError m)"
proof -
  have adm: "call_admission self now_reset now_msg = (None, self)"
    using assms(1) by (auto simp: call_admission_def)
  have c: "call self now_reset now_msg now_fail func w = (Inl e, on_failure self now_fail e, w')"
    using adm assms(2,3) by (simp add: call_def)
  have f: "failure_count (on_failure self now_fail e) = failure_count self + 1"
    by (simp add: on_failure_def Let_def)
  have l: "last_failure_time (on_failure self now_fail e) = Some now_fail"
    by (simp add: on_failure_def Let_def)
  have h: "state self = HALF_OPEN \<longrightarrow>
            state (on_failure self now_fail e) = OPEN \<and>
            half_open_calls (on_failure self now_fail e) = 0"
    by (simp add: on_failure_def Let_def)
  show ?thesis using c f l h by simp
qed

theorem admitted_failure_recorded_and_reraised_witness:
  "call half_open_breaker 7000000 7000000 8000000 counting_failure 0 =
     (Inl (Other_exception (Exception ''ValueError'' ''Custom error message'')),
      half_open_breaker\<lparr>state := OPEN, failure_count := 6, last_failure_time := Some 8000000,
                         half_open_calls := 0\<rparr>, 1)"
  using admitted_failure_recorded_and_reraised
          [of half_open_breaker counting_failure 0
              "Other_exception (Exception ''ValueError'' ''Custom error message'')" 1
              7000000 7000000 8000000]
  by (simp add: half_open_breaker_def counting_failure_def on_failure_def Let_def)

subsection \<open>Invariants of the reachable states\<close>

lemma step_counters_invariant:
  assumes "state self = CLOSED \<longrightarrow> half_open_calls self = 0"
    and "state self \<noteq> CLOSED \<longrightarrow> failure_count self \<ge> failure_threshold self"
  shows "(state (step self ev) = CLOSED \<longrightarrow> half_open_calls (step self ev) = 0) \<and>
         (state (step self ev) \<noteq> CLOSED \<longrightarrow>
            failure_count (step self ev) \<ge> failure_threshold (step self ev))"
  using assms
  by (cases ev; cases "state self")
     (auto simp: call_def call_admission_def on_failure_def on_success_def reset_def Let_def
           split: sum.splits)

lemma run_counters_invariant:
  assumes "state self = CLOSED \<longrightarrow> half_open_calls self = 0"
    and "state self \<noteq> CLOSED \<longrightarrow> failure_count self \<ge> failure_threshold self"
  shows "(state (run self evs) = CLOSED \<longrightarrow> half_open_calls (run self evs) = 0) \<and>
         (state (run self evs) \<noteq> CLOSED \<longrightarrow>
            failure_count (run self evs) \<ge> failure_threshold (run self evs))"
  using assms
proof (induction evs arbitrary: self)
  case Nil
  then show ?case by (simp add: run_Nil)
next
  case (Cons ev evs)
  show ?case
    unfolding run_Cons
    using Cons.IH [of "step self ev"] step_counters_invariant [OF Cons.prems, of ev]
    by blast
qed

text \<open>
  Claim C5. In every state reached from the initial one by a sequence of calls, resets and
  read-only accessors, \<open>CLOSED\<close> implies \<open>half_open_calls = 0\<close> and \<open>OPEN\<close> implies
  \<open>failure_count \<ge> failure_threshold\<close>.
\<close>

theorem reachable_state_invariant:
  "(state (run (init settings) evs) = CLOSED \<longrightarrow> half_open_calls (run (init settings) evs) = 0) \<and>
   (state (run (init settings) evs) = OPEN \<longrightarrow>
      failure_count (run (init settings) evs) \<ge> failure_threshold (run (init settings) evs))"
  using run_counters_invariant [of "init settings" evs]
  by (simp add: init_def)

theorem reachable_state_invariant_witness:
  "state (run (init sample_settings) opening_run) = OPEN \<and>
   failure_threshold (run (init sample_settings) opening_run)
     \<le> failure_count (run (init sample_settings) opening_run) \<and>
   state (run (init sample_settings) (opening_run @ [Reset])) = CLOSED \<and>
   half_open_calls (run (init sample_settings) (opening_run @ [Reset])) = 0"
  using reachable_state_invariant [of sample_settings opening_run]
        reachable_state_invariant [of sample_settings "opening_run @ [Reset]"]
  by (simp add: opening_run_state run_append) (simp add: run_def reset_def)

lemma step_half_open_quota:
  assumes "1 \<le> half_open_max_calls self"
    and "state self = HALF_OPEN \<longrightarrow> half_open_calls self < half_open_max_calls self"
  shows "state (step self ev) = HALF_OPEN \<longrightarrow>
           half_open_calls (step self ev) < half_open_max_calls (step self ev)"
  using assms
  by (cases ev; cases "state self")
     (auto simp: call_def call_admission_def on_failure_def on_success_def reset_def Let_def
           split: sum.splits)

lemma run_half_open_quota:
  assumes "1 \<le> half_open_max_calls self"
    and "state self = HALF_OPEN \<longrightarrow> half_open_calls self < half_open_max_calls self"
  shows "state (run self evs) = HALF_OPEN \<longrightarrow>
           half_open_calls (run self evs) < half_open_max_calls (run self evs)"
  using assms
proof (induction evs arbitrary: self)
  case Nil
  then show ?case by (simp add: run_Nil)
next
  case (Cons ev evs)
  have "1 \<le> half_open_max_calls (step self ev)"
    using Cons.prems(1) step_config [of self ev] by simp
  then show ?case
    unfolding run_Cons
    using Cons.IH [of "step self ev"] step_half_open_quota [OF Cons.prems, of ev]
    by blast
qed

lemma call_admission_quota:
  assumes "1 \<le> half_open_max_calls self"
    and "state self = HALF_OPEN \<longrightarrow> half_open_calls self < half_open_max_calls self"
  shows "fst (call_admission self now_reset now_msg) \<noteq>
           Some (CircuitBreakerError (Half_open_max_calls_exceeded n))"
  using assms
  by (cases "state self") (auto simp: call_admission_def Let_def)

text \<open>
  Claim C10. With \<open>half_open_max_calls \<ge> 1\<close> in the settings, every state reached by a
  sequential run satisfies: \<open>HALF_OPEN\<close> implies \<open>half_open_calls < half_open_max_calls\<close>.
  Hence the locked block of \<open>call\<close> never raises the error
  \<^verbatim>\<open>"HALF_OPEN max calls exceeded"\<close> in such a state, at any clock reading.
\<close>

theorem half_open_quota_never_exceeded:
  assumes "1 \<le> settings_half_open_max_calls settings"
  shows "(state (run (init settings) evs) = HALF_OPEN \<longrightarrow>
            half_open_calls (run (init settings) evs)
              < half_open_max_calls (run (init settings) evs)) \<and>
         fst (call_admission (run (init settings) evs) now_reset now_msg) \<noteq>
           Some (CircuitBreakerError (Half_open_max_calls_exceeded n))"
proof -
  have m: "1 \<le> half_open_max_calls (init settings)"
    using assms by (simp add: init_def)
  have s: "state (init settings) = HALF_OPEN \<longrightarrow>
             half_open_calls (init settings) < half_open_max_calls (init settings)"
    by (simp add: init_def)
  have q: "state (run (init settings) evs) = HALF_OPEN \<longrightarrow>
            half_open_calls (run (init settings) evs)
              < half_open_max_calls (run (init settings) evs)"
    using run_half_open_quota [OF m s] .
  have m': "1 \<le> half_open_max_calls (run (init settings) evs)"
    using m run_config [of "init settings" evs] by simp
  show ?thesis using q call_admission_quota [OF m' q] by simp
qed

theorem half_open_quota_never_exceeded_witness:
  "1 \<le> settings_half_open_max_calls sample_settings \<and>
   state (run (init sample_settings) (opening_run @ [success_at 8000000])) = HALF_OPEN \<and>
   half_open_calls (run (init sample_settings) (opening_run @ [success_at 8000000]))
     < half_open_max_calls (run (init sample_settings) (opening_run @ [success_at 8000000])) \<and>
   fst (call_admission (run (init sample_settings) (opening_run @ [success_at 8000000]))
          9000000 9000000) = None"
  using half_open_quota_never_exceeded
          [of sample_settings "opening_run @ [success_at 8000000]" 9000000 9000000 2]
  by (simp add: probing_run_state) (simp add: sample_settings_def call_admission_def)

subsection \<open>The full cycle\<close>

lemma step_successful_half_open:
  assumes "state self = HALF_OPEN" and "half_open_calls self < half_open_max_calls self"
    and "successful_call ev"
  shows "step self ev =
           (if half_open_calls self + 1 \<ge> half_open_max_calls self
            then self\<lparr>state := CLOSED, failure_count := 0, half_open_calls := 0,
                      last_failure_time := None\<rparr>
            else self\<lparr>half_open_calls := half_open_calls self + 1\<rparr>)"
  using assms
  by (cases self; cases ev rule: successful_call.cases)
     (auto simp: call_def call_admission_def on_success_def Let_def)

lemma half_open_successes:
  "state self = HALF_OPEN \<Longrightarrow> list_all successful_call evs \<Longrightarrow>
   half_open_calls self < half_open_max_calls self \<Longrightarrow>
   half_open_calls self + int (length evs) = half_open_max_calls self \<Longrightarrow>
   run self evs =
     self\<lparr>state := CLOSED, failure_count := 0, half_open_calls := 0, last_failure_time := None\<rparr>"
proof (induction evs arbitrary: self)
  case Nil
  then show ?case by simp
next
  case (Cons ev evs)
  have sc: "successful_call ev" and rest: "list_all successful_call evs"
    using Cons.prems(2) by simp_all
  note st = step_successful_half_open [OF Cons.prems(1) Cons.prems(3) sc]
  show ?case
  proof (cases "half_open_calls self + 1 \<ge> half_open_max_calls self")
    case True
    have l: "int (length (ev # evs)) = 1 + int (length evs)" by simp
    have "int (length evs) \<le> 0" using True Cons.prems(4) l by linarith
    then have "evs = []" by simp
    then show ?thesis using st True by (simp add: run_Cons run_Nil)
  next
    case False
    let ?s = "self\<lparr>half_open_calls := half_open_calls self + 1\<rparr>"
    have eq: "step self ev = ?s" using st False by simp
    have "run ?s evs =
            ?s\<lparr>state := CLOSED, failure_count := 0, half_open_calls := 0, last_failure_time := None\<rparr>"
      using Cons.IH [of ?s] Cons.prems rest False by simp
    then show ?thesis using eq by (simp add: run_Cons)
  qed
qed

lemma threshold_failures_open:
  assumes "1 \<le> settings_failure_threshold settings"
    and "list_all failing_call fails"
    and "int (length fails) = settings_failure_threshold settings"
  shows "\<exists>t. run (init settings) fails =
           (init settings)\<lparr>state := OPEN, failure_count := settings_failure_threshold settings,
                            last_failure_time := Some t\<rparr>"
proof -
  from assms(1,3) have ne: "fails \<noteq> []" by auto
  then obtain pre ev where fs: "fails = pre @ [ev]"
    by (metis rev_exhaust)
  have pre: "list_all failing_call pre" and ev: "failing_call ev"
    using assms(2) fs by simp_all
  have len: "int (length pre) = settings_failure_threshold settings - 1"
    using assms(3) fs by simp
  let ?i = "init settings"
  have c: "state ?i = CLOSED" by (simp add: init_def)
  have lt: "failure_count ?i + int (length pre) < failure_threshold ?i"
    using len by (simp add: init_def)
  note cf = closed_failures [OF c pre lt]
  let ?m = "run ?i pre"
  have mc: "state ?m = CLOSED" using cf by simp
  note st = step_failing_closed [OF mc ev]
  obtain t where t: "last_failure_time (step ?m ev) = Some t" using st(7) by blast
  have "step ?m ev =
          ?i\<lparr>state := OPEN, failure_count := settings_failure_threshold settings,
              last_failure_time := Some t\<rparr>"
    using st(1-6) t cf len
    by (intro CircuitBreaker.equality) (simp_all add: init_def)
  then show ?thesis using fs by (auto simp: run_snoc)
qed

lemma probe_after_cooldown:
  assumes "state self = OPEN" and "1 \<le> half_open_max_calls self"
    and "cooldown_elapsed self now_reset"
  shows "step self (Call now_reset now_msg now_fail (Inr ())) =
           (if 1 \<ge> half_open_max_calls self
            then self\<lparr>state := CLOSED, failure_count := 0, half_open_calls := 0,
                      last_failure_time := None\<rparr>
            else self\<lparr>state := HALF_OPEN, half_open_calls := 1\<rparr>)"
  using assms
  by (cases self)
     (auto simp: call_def call_admission_def on_success_def Let_def cooldown_elapsed_def
        should_attempt_reset_def)

text \<open>
  Claim C6. Start from the initial state with positive \<open>failure_threshold\<close> and
  \<open>half_open_max_calls\<close>. After \<open>failure_threshold\<close> failing calls in a row the breaker is
  \<open>OPEN\<close>. A successful call whose clock reading finds the cooldown elapsed is admitted as
  the first trial, and \<open>half_open_max_calls - 1\<close> further successful calls complete the
  recovery: the breaker is then equal to the initial one, that is \<open>CLOSED\<close> with
  \<open>failure_count = 0\<close>, \<open>half_open_calls = 0\<close> and no \<open>last_failure_time\<close>.
\<close>

theorem full_cycle_returns_to_initial_state:
  assumes "1 \<le> settings_failure_threshold settings"
    and "1 \<le> settings_half_open_max_calls settings"
    and "list_all failing_call fails"
    and "int (length fails) = settings_failure_threshold settings"
    and "cooldown_elapsed (run (init settings) fails) now_reset"
    and "list_all successful_call trials"
    and "int (length trials) = settings_half_open_max_calls settings - 1"
  shows "state (run (init settings) fails) = OPEN \<and>
         state (run (init settings) (fails @ [Call now_reset now_msg now_fail (Inr ())])) =
           (if trials = [] then CLOSED else HALF_OPEN) \<and>
         run (init settings) (fails @ Call now_reset now_msg now_fail (Inr ()) # trials) =
           init settings"
proof -
  let ?probe = "Call now_reset now_msg now_fail (Inr ())"
  obtain t where op: "run (init settings) fails =
           (init settings)\<lparr>state := OPEN, failure_count := settings_failure_threshold settings,
                            last_failure_time := Some t\<rparr>"
    using threshold_failures_open [OF assms(1,3,4)] by blast
  let ?o = "run (init settings) fails"
  have so: "state ?o = OPEN" using op by simp
  have mo: "1 \<le> half_open_max_calls ?o" using op assms(2) by (simp add: init_def)
  note pr = probe_after_cooldown [OF so mo assms(5), of now_msg now_fail]
  have closed_eq: "?o\<lparr>state := CLOSED, failure_count := 0, half_open_calls := 0,
                      last_failure_time := None\<rparr> = init settings"
    using op by (simp add: init_def)
  show ?thesis
  proof (cases "trials = []")
    case True
    then have "half_open_max_calls ?o = 1" using assms(7) op by (simp add: init_def)
    then have "step ?o ?probe = init settings" using pr closed_eq by simp
    then show ?thesis using so True by (simp add: run_append run_Cons run_Nil init_def)
  next
    case False
    then have "0 < length trials" by simp
    then have "1 < settings_half_open_max_calls settings" using assms(7) by linarith
    then have gt: "\<not> 1 \<ge> half_open_max_calls ?o" using op by (simp add: init_def)
    let ?h = "?o\<lparr>state := HALF_OPEN, half_open_calls := 1\<rparr>"
    have sp: "step ?o ?probe = ?h" using pr gt by simp
    have "run ?h trials =
            ?h\<lparr>state := CLOSED, failure_count := 0, half_open_calls := 0, last_failure_time := None\<rparr>"
      using half_open_successes [of ?h trials] assms(6,7) gt op by (simp add: init_def)
    then have "run ?h trials = init settings" using closed_eq by simp
    then show ?thesis using so sp False by (simp add: run_append run_Cons run_Nil)
  qed
qed

text \<open>
  Five failures up to second 5, a first trial at second 8 and a second one at second 9.
\<close>

theorem full_cycle_returns_to_initial_state_witness:
  "state (run (init sample_settings) opening_run) = OPEN \<and>
   state (run (init sample_settings) (opening_run @ [Call 8000000 8000000 8000000 (Inr ())])) = HALF_OPEN \<and>
   run (init sample_settings)
       (opening_run @ Call 8000000 8000000 8000000 (Inr ()) # [success_at 9000000]) =
     init sample_settings"
  using full_cycle_returns_to_initial_state
          [of sample_settings opening_run 8000000 "[success_at 9000000]" 8000000 8000000]
  by (simp add: opening_run_state cooldown_elapsed_def total_seconds_def)
     (simp add: sample_settings_def opening_run_def failure_at_def success_at_def)

subsection \<open>When the breaker is open\<close>

lemma step_open_iff:
  "state (step self ev) = OPEN \<longleftrightarrow>
     trips self ev \<or> (state self = OPEN \<and> cooldown_pending self ev)"
proof (cases ev)
  case (Call t1 t2 t3 r)
  show ?thesis
  proof (cases r)
    case (Inl e)
    show ?thesis
      unfolding Call Inl
      by (cases "state self"; cases "caught_by_except_Exception e")
         (auto simp: trips_def call_def call_admission_def on_failure_def Let_def
            cooldown_elapsed_def should_attempt_reset_def split: option.splits)
  next
    case (Inr u)
    show ?thesis
      unfolding Call Inr
      by (cases "state self")
         (auto simp: trips_def call_def call_admission_def on_success_def Let_def
            cooldown_elapsed_def should_attempt_reset_def split: option.splits)
  qed
qed (auto simp: trips_def reset_def)

lemma step_pending_unchanged:
  assumes "state self = OPEN" and "cooldown_pending self ev"
  shows "step self ev = self"
  using assms
  by (cases ev)
     (auto simp: call_def call_admission_def Let_def cooldown_elapsed_def
        should_attempt_reset_def split: option.splits)

lemma run_open_iff:
  "state (run self evs) = OPEN \<longleftrightarrow>
     (state self = OPEN \<and> list_all (cooldown_pending self) evs) \<or> tripped_and_pending self evs"
proof (induction evs arbitrary: self)
  case Nil
  then show ?case by (simp add: run_Nil)
next
  case (Cons ev evs)
  let ?s = "step self ev"
  have ih: "state (run ?s evs) = OPEN \<longleftrightarrow>
     (state ?s = OPEN \<and> list_all (cooldown_pending ?s) evs) \<or> tripped_and_pending ?s evs"
    using Cons.IH [of ?s] .
  have keep: "?s = self" if "state self = OPEN" and "cooldown_pending self ev"
    using step_pending_unchanged [OF that] .
  show ?case
    unfolding run_Cons ih
    using step_open_iff [of self ev] keep
    by auto
qed

text \<open>
  Claim C4, as the code has it. The breaker leaves \<open>OPEN\<close> only inside \<open>call\<close> or
  \<open>reset\<close>: the accessors do not look at the clock. So, for every run from the initial
  state, the breaker is \<open>OPEN\<close> exactly when some call of the run tripped it (the
  operation raised an instance of \<^verbatim>\<open>Exception\<close> while the breaker was \<open>CLOSED\<close> and
  \<open>failure_count\<close> thereby reached \<open>failure_threshold\<close>, or while the call was a
  \<open>HALF_OPEN\<close> trial) and every event after that was a read-only accessor or a call whose
  clock reading found the cooldown not elapsed. \<^verbatim>\<open>get_state\<close> reports \<^verbatim>\<open>"open"\<close> in exactly
  these runs, and leaves the breaker as it is.
\<close>

theorem open_iff_tripped_and_cooldown_pending:
  "(state (run (init settings) evs) = OPEN \<longleftrightarrow> tripped_and_pending (init settings) evs) \<and>
   (info_state (get_state (run (init settings) evs)) = ''open'' \<longleftrightarrow>
      tripped_and_pending (init settings) evs) \<and>
   run (init settings) (evs @ [Get_state]) = run (init settings) evs"
proof -
  have a: "state (run (init settings) evs) = OPEN \<longleftrightarrow> tripped_and_pending (init settings) evs"
    using run_open_iff [of "init settings" evs] by (simp add: init_def)
  have b: "info_state (get_state cb) = ''open'' \<longleftrightarrow> state cb = OPEN" for cb
    by (cases "state cb") (simp_all add: get_state_def)
  show ?thesis using a b by (simp add: run_snoc)
qed

text \<open>
  After the fifth failure at second 5 and a sixth call refused at second 6, the breaker is
  open; after a successful probe at second 8 it is not.
\<close>

theorem open_iff_tripped_and_cooldown_pending_witness:
  "state (run (init sample_settings) (opening_run @ [failure_at 6000000, Get_state])) = OPEN \<and>
   tripped_and_pending (init sample_settings) (opening_run @ [failure_at 6000000, Get_state]) \<and>
   state (run (init sample_settings) (opening_run @ [success_at 8000000])) \<noteq> OPEN \<and>
   \<not> tripped_and_pending (init sample_settings) (opening_run @ [success_at 8000000])"
proof -
  have a: "state (run (init sample_settings) (opening_run @ [failure_at 6000000, Get_state])) = OPEN"
    by (simp add: run_append opening_run_state)
       (simp add: run_def failure_at_def call_def call_admission_def should_attempt_reset_def
          total_seconds_def Let_def)
  have b: "state (run (init sample_settings) (opening_run @ [success_at 8000000])) \<noteq> OPEN"
    by (simp add: probing_run_state)
  show ?thesis
    using a b
          open_iff_tripped_and_cooldown_pending
            [of sample_settings "opening_run @ [failure_at 6000000, Get_state]"]
          open_iff_tripped_and_cooldown_pending
            [of sample_settings "opening_run @ [success_at 8000000]"]
    by blast
qed

text \<open>
  Claim C4 as stated fails: with a timeout of three seconds and the fifth failure at
  second 5, the breaker is still \<open>OPEN\<close> at second 9, and \<^verbatim>\<open>get_state\<close> says so, although
  the cooldown has elapsed.
\<close>

theorem open_iff_cooldown_not_elapsed_counterexample:
  "info_state (get_state (run (init sample_settings) opening_run)) = ''open'' \<and>
   \<not> (state (run (init sample_settings) opening_run) = OPEN \<longleftrightarrow>
        opened (init sample_settings) opening_run \<and>
        \<not> cooldown_elapsed (run (init sample_settings) opening_run) 9000000)"
  by (simp add: opening_run_state get_state_def cooldown_elapsed_def total_seconds_def)

subsection \<open>Readiness\<close>

text \<open>
  Claim C7. Whatever booleans the two dependency checks return, \<open>readiness\<close> returns a
  dictionary whose \<^verbatim>\<open>status\<close> is \<^verbatim>\<open>"healthy"\<close> exactly when both are true, and whose
  \<^verbatim>\<open>checks\<close> report the status of each dependency with \<^verbatim>\<open>required: True\<close>.
\<close>

theorem readiness_is_conjunction:
  assumes "check_elasticsearch self deps w = (Inr es_healthy, w1)"
    and "check_lmstudio self deps w1 = (Inr lm_healthy, w2)"
  shows "readiness self deps utcnow w =
           (Inr [(''status'', Str (health_text (es_healthy \<and> lm_healthy))),
                 (''timestamp'', Isoformat utcnow),
                 (''probe'', Str ''readiness''),
                 (''checks'', Dict
                    [(''elasticsearch'',
                        Dict [(''status'', Str (health_text es_healthy)), (''required'', Bool True)]),
                     (''lmstudio'',
                        Dict [(''status'', Str (health_text lm_healthy)), (''required'', Bool True)])])],
            w2) \<and>
         (health_text (es_healthy \<and> lm_healthy) = ''healthy'' \<longleftrightarrow> es_healthy \<and> lm_healthy) \<and>
         (health_text es_healthy = ''healthy'' \<longleftrightarrow> es_healthy) \<and>
         (health_text lm_healthy = ''healthy'' \<longleftrightarrow> lm_healthy)"
  using assms by (simp add: readiness_def health_text_def)

text \<open>The four rows of the truth table: green or red cluster, status code 200 or 503.\<close>

theorem readiness_is_conjunction_witness:
  "map_of (projr (fst (readiness sample_probes (fixed_deps (Inr [(''status'', ''green'')]) (Inr 200)) 0 ())))
      ''status'' = Some (Str ''healthy'') \<and>
   map_of (projr (fst (readiness sample_probes (fixed_deps (Inr [(''status'', ''green'')]) (Inr 503)) 0 ())))
      ''status'' = Some (Str ''unhealthy'') \<and>
   map_of (projr (fst (readiness sample_probes (fixed_deps (Inr [(''status'', ''red'')]) (Inr 200)) 0 ())))
      ''status'' = Some (Str ''unhealthy'') \<and>
   map_of (projr (fst (readiness sample_probes (fixed_deps (Inr [(''status'', ''red'')]) (Inr 503)) 0 ())))
      ''status'' = Some (Str ''unhealthy'')"
  using readiness_is_conjunction
          [of sample_probes "fixed_deps (Inr [(''status'', ''green'')]) (Inr 200)" "()" True "()" True "()" 0]
        readiness_is_conjunction
          [of sample_probes "fixed_deps (Inr [(''status'', ''green'')]) (Inr 503)" "()" True "()" False "()" 0]
        readiness_is_conjunction
          [of sample_probes "fixed_deps (Inr [(''status'', ''red'')]) (Inr 200)" "()" False "()" True "()" 0]
        readiness_is_conjunction
          [of sample_probes "fixed_deps (Inr [(''status'', ''red'')]) (Inr 503)" "()" False "()" False "()" 0]
  by (simp add: check_elasticsearch_def check_lmstudio_def fixed_deps_def sample_probes_def
        init_probes_def health_text_def)

subsection \<open>Startup\<close>

lemma check_elasticsearch_spy:
  "check_elasticsearch self (spy deps) (n, w) =
     (case check_elasticsearch self deps w of (r, w') \<Rightarrow> (r, (Suc n, w')))"
  by (simp add: check_elasticsearch_def spy_def Let_def
        split: prod.splits sum.splits option.splits)

lemma startup_latched:
  "startup_complete self \<Longrightarrow>
   startup self deps utcnow w =
     (Inr [(''status'', Str ''healthy''), (''timestamp'', Isoformat utcnow),
           (''probe'', Str ''startup'')], self, w)"
  by (simp add: startup_def)

lemma startup_first_success:
  "\<not> startup_complete self \<Longrightarrow> check_elasticsearch self deps w = (Inr True, w1) \<Longrightarrow>
   startup self deps utcnow w =
     (Inr [(''status'', Str ''healthy''), (''timestamp'', Isoformat utcnow),
           (''probe'', Str ''startup'')], self\<lparr>startup_complete := True\<rparr>, w1)"
  by (simp add: startup_def)

lemma startup_check_fails:
  "\<not> startup_complete self \<Longrightarrow> check_elasticsearch self deps w = (Inr False, w1) \<Longrightarrow>
   startup self deps utcnow w =
     (Inr [(''status'', Str ''unhealthy''), (''timestamp'', Isoformat utcnow),
           (''probe'', Str ''startup''), (''error'', Str ''Elasticsearch not accessible'')],
      self, w1)"
  by (simp add: startup_def)

lemma probe_step_latched:
  "startup_complete (fst sw) \<Longrightarrow> startup_complete (fst (probe_step deps sw p))"
  by (cases sw; cases p) (simp_all add: startup_latched)

lemma run_probes_latched:
  "startup_complete (fst sw) \<Longrightarrow> startup_complete (fst (run_probes deps sw ps))"
  unfolding run_probes_def
  by (induction ps arbitrary: sw) (simp_all add: probe_step_latched)

text \<open>
  Claim C8. A \<open>startup\<close> call made while \<open>startup_complete\<close> is false and whose search-engine
  check succeeds returns healthy and sets the flag; under a spy that starts at 0, that call
  and the next one leave the count of checks at 1. Once the flag is set, \<open>startup\<close> returns
  healthy without touching the world, whatever the dependencies, and the flag stays set
  under any sequence of probes. A call whose check fails returns an unhealthy result with an
  error message and leaves the flag false, so that the next call checks again.
\<close>

theorem startup_is_a_one_way_latch:
  "(\<not> startup_complete self \<and> check_elasticsearch self deps w = (Inr True, w1) \<longrightarrow>
      startup self deps utcnow w =
        (Inr [(''status'', Str ''healthy''), (''timestamp'', Isoformat utcnow),
              (''probe'', Str ''startup'')], self\<lparr>startup_complete := True\<rparr>, w1) \<and>
      startup self (spy deps) utcnow (0, w) =
        (Inr [(''status'', Str ''healthy''), (''timestamp'', Isoformat utcnow),
              (''probe'', Str ''startup'')], self\<lparr>startup_complete := True\<rparr>, (1, w1)) \<and>
      startup (self\<lparr>startup_complete := True\<rparr>) (spy deps) utcnow' (1, w1) =
        (Inr [(''status'', Str ''healthy''), (''timestamp'', Isoformat utcnow'),
              (''probe'', Str ''startup'')], self\<lparr>startup_complete := True\<rparr>, (1, w1))) \<and>
   (startup_complete self \<longrightarrow>
      startup self deps utcnow w =
        (Inr [(''status'', Str ''healthy''), (''timestamp'', Isoformat utcnow),
              (''probe'', Str ''startup'')], self, w) \<and>
      startup_complete (fst (run_probes deps (self, w) ps))) \<and>
   (\<not> startup_complete self \<and> check_elasticsearch self deps w = (Inr False, w1) \<longrightarrow>
      startup self deps utcnow w =
        (Inr [(''status'', Str ''unhealthy''), (''timestamp'', Isoformat utcnow),
              (''probe'', Str ''startup''), (''error'', Str ''Elasticsearch not accessible'')],
         self, w1) \<and>
      \<not> startup_complete (fst (snd (startup self deps utcnow w))))"
proof (intro conjI impI)
  assume h: "\<not> startup_complete self \<and> check_elasticsearch self deps w = (Inr True, w1)"
  then show "startup self deps utcnow w =
        (Inr [(''status'', Str ''healthy''), (''timestamp'', Isoformat utcnow),
              (''probe'', Str ''startup'')], self\<lparr>startup_complete := True\<rparr>, w1)"
    by (simp add: startup_first_success)
  have "check_elasticsearch self (spy deps) (0, w) = (Inr True, (1, w1))"
    using h by (simp add: check_elasticsearch_spy)
  then show "startup self (spy deps) utcnow (0, w) =
        (Inr [(''status'', Str ''healthy''), (''timestamp'', Isoformat utcnow),
              (''probe'', Str ''startup'')], self\<lparr>startup_complete := True\<rparr>, (1, w1))"
    using h by (simp add: startup_first_success)
  show "startup (self\<lparr>startup_complete := True\<rparr>) (spy deps) utcnow' (1, w1) =
        (Inr [(''status'', Str ''healthy''), (''timestamp'', Isoformat utcnow'),
              (''probe'', Str ''startup'')], self\<lparr>startup_complete := True\<rparr>, (1, w1))"
    by (simp add: startup_latched)
next
  assume "startup_complete self"
  then show "startup self deps utcnow w =
        (Inr [(''status'', Str ''healthy''), (''timestamp'', Isoformat utcnow),
              (''probe'', Str ''startup'')], self, w)"
    by (simp add: startup_latched)
next
  assume "startup_complete self"
  then show "startup_complete (fst (run_probes deps (self, w) ps))"
    using run_probes_latched [of "(self, w)" deps ps] by simp
next
  assume h: "\<not> startup_complete self \<and> check_elasticsearch self deps w = (Inr False, w1)"
  then show e: "startup self deps utcnow w =
        (Inr [(''status'', Str ''unhealthy''), (''timestamp'', Isoformat utcnow),
              (''probe'', Str ''startup''), (''error'', Str ''Elasticsearch not accessible'')],
         self, w1)"
    by (simp add: startup_check_fails)
  show "\<not> startup_complete (fst (snd (startup self deps utcnow w)))"
    using e h by simp
qed

text \<open>
  A yellow cluster: two calls, one check. A refused connection: unhealthy, with the
  message, and the flag still false.
\<close>

theorem startup_is_a_one_way_latch_witness:
  "startup sample_probes (spy (fixed_deps (Inr [(''status'', ''yellow'')]) (Inr 200))) 10 (0, ()) =
     (Inr [(''status'', Str ''healthy''), (''timestamp'', Isoformat 10), (''probe'', Str ''startup'')],
      sample_probes\<lparr>startup_complete := True\<rparr>, (1, ())) \<and>
   startup (sample_probes\<lparr>startup_complete := True\<rparr>)
       (spy (fixed_deps (Inr [(''status'', ''yellow'')]) (Inr 200))) 20 (1, ()) =
     (Inr [(''status'', Str ''healthy''), (''timestamp'', Isoformat 20), (''probe'', Str ''startup'')],
      sample_probes\<lparr>startup_complete := True\<rparr>, (1, ())) \<and>
   startup sample_probes
       (fixed_deps (Inl (Exception ''ConnectionError'' ''Connection refused'')) (Inr 200)) 10 () =
     (Inr [(''status'', Str ''unhealthy''), (''timestamp'', Isoformat 10), (''probe'', Str ''startup''),
           (''error'', Str ''Elasticsearch not accessible'')],
      sample_probes, ())"
  using startup_is_a_one_way_latch
          [of sample_probes "fixed_deps (Inr [(''status'', ''yellow'')]) (Inr 200)" "()" "()" 10 20 "[]"]
        startup_is_a_one_way_latch
          [of sample_probes "fixed_deps (Inl (Exception ''ConnectionError'' ''Connection refused'')) (Inr 200)"
              "()" "()" 10 20 "[]"]
  by (simp add: check_elasticsearch_def fixed_deps_def sample_probes_def init_probes_def)

subsection \<open>No probe raises\<close>

lemma check_elasticsearch_total:
  assumes "raises_only_Exception deps"
  shows "\<exists>b w'. check_elasticsearch self deps w = (Inr b, w')"
proof (cases "es_cluster_health deps (elasticsearch_url self) (check_timeout self) w")
  case (Pair r w')
  show ?thesis
  proof (cases r)
    case (Inl e)
    then have "isinstance_Exception e"
      using assms Pair unfolding raises_only_Exception_def by blast
    then show ?thesis using Pair Inl by (auto simp: check_elasticsearch_def)
  next
    case (Inr health)
    then show ?thesis using Pair
      by (cases "map_of health ''status''") (auto simp: check_elasticsearch_def)
  qed
qed

lemma check_lmstudio_total:
  assumes "raises_only_Exception deps"
  shows "\<exists>b w'. check_lmstudio self deps w = (Inr b, w')"
proof -
  let ?url = "(case llm_base_url self of Some u \<Rightarrow> u | None \<Rightarrow> lmstudio_base_url self) @ ''/models''"
  show ?thesis
  proof (cases "http_get deps ?url (check_timeout self) w")
    case (Pair r w')
    show ?thesis
    proof (cases r)
      case (Inl e)
      then have "isinstance_Exception e"
        using assms Pair unfolding raises_only_Exception_def by blast
      then show ?thesis using Pair Inl by (auto simp: check_lmstudio_def Let_def)
    next
      case (Inr code)
      then show ?thesis using Pair by (auto simp: check_lmstudio_def Let_def)
    qed
  qed
qed

lemma readiness_total:
  assumes "raises_only_Exception deps"
  shows "\<exists>d w'. readiness self deps utcnow w = (Inr d, w')"
proof -
  obtain b1 w1 where c1: "check_elasticsearch self deps w = (Inr b1, w1)"
    using check_elasticsearch_total [OF assms] by blast
  obtain b2 w2 where c2: "check_lmstudio self deps w1 = (Inr b2, w2)"
    using check_lmstudio_total [OF assms] by blast
  show ?thesis using c1 c2 by (auto simp: readiness_def)
qed

lemma startup_total:
  assumes "raises_only_Exception deps"
  shows "\<exists>d self' w'. startup self deps utcnow w = (Inr d, self', w')"
proof -
  obtain b1 w1 where c1: "check_elasticsearch self deps w = (Inr b1, w1)"
    using check_elasticsearch_total [OF assms] by blast
  show ?thesis using c1 by (cases b1) (auto simp: startup_def)
qed

text \<open>
  Claim C9. Let the dependencies raise nothing but instances of \<^verbatim>\<open>Exception\<close>. Then each of
  \<open>liveness\<close>, \<open>readiness\<close> and \<open>startup\<close> returns a dictionary and raises nothing, and every
  failure of a dependency becomes the boolean \<open>False\<close> of its check: an exception or a
  timeout of either dependency, a cluster status other than green or yellow, a status code
  other than 200.
\<close>

theorem probes_never_raise:
  assumes "raises_only_Exception deps"
  shows "(\<exists>d. liveness self utcnow = Inr d) \<and>
         (\<exists>d w'. readiness self deps utcnow w = (Inr d, w')) \<and>
         (\<exists>d self' w'. startup self deps utcnow w = (Inr d, self', w')) \<and>
         (\<forall>e w'. es_cluster_health deps (elasticsearch_url self) (check_timeout self) w = (Inl e, w')
            \<longrightarrow> check_elasticsearch self deps w = (Inr False, w')) \<and>
         (\<forall>health status w'.
            es_cluster_health deps (elasticsearch_url self) (check_timeout self) w = (Inr health, w') \<and>
            map_of health ''status'' = Some status \<and> status \<noteq> ''green'' \<and> status \<noteq> ''yellow''
            \<longrightarrow> check_elasticsearch self deps w = (Inr False, w')) \<and>
         (\<forall>e w'. http_get deps
                    ((case llm_base_url self of Some u \<Rightarrow> u | None \<Rightarrow> lmstudio_base_url self) @ ''/models'')
                    (check_timeout self) w = (Inl e, w')
            \<longrightarrow> check_lmstudio self deps w = (Inr False, w')) \<and>
         (\<forall>code w'. http_get deps
                    ((case llm_base_url self of Some u \<Rightarrow> u | None \<Rightarrow> lmstudio_base_url self) @ ''/models'')
                    (check_timeout self) w = (Inr code, w') \<and> code \<noteq> 200
            \<longrightarrow> check_lmstudio self deps w = (Inr False, w'))"
proof (intro conjI allI impI)
  show "\<exists>d. liveness self utcnow = Inr d" by (simp add: liveness_def)
  show "\<exists>d w'. readiness self deps utcnow w = (Inr d, w')"
    using readiness_total [OF assms] .
  show "\<exists>d self' w'. startup self deps utcnow w = (Inr d, self', w')"
    using startup_total [OF assms] .
next
  fix e w'
  assume h: "es_cluster_health deps (elasticsearch_url self) (check_timeout self) w = (Inl e, w')"
  then have "isinstance_Exception e"
    using assms unfolding raises_only_Exception_def by blast
  then show "check_elasticsearch self deps w = (Inr False, w')"
    using h by (simp add: check_elasticsearch_def)
next
  fix health status w'
  assume "es_cluster_health deps (elasticsearch_url self) (check_timeout self) w = (Inr health, w') \<and>
            map_of health ''status'' = Some status \<and> status \<noteq> ''green'' \<and> status \<noteq> ''yellow''"
  then show "check_elasticsearch self deps w = (Inr False, w')"
    by (simp add: check_elasticsearch_def)
next
  fix e w'
  assume h: "http_get deps
                    ((case llm_base_url self of Some u \<Rightarrow> u | None \<Rightarrow> lmstudio_base_url self) @ ''/models'')
                    (check_timeout self) w = (Inl e, w')"
  then have "isinstance_Exception e"
    using assms unfolding raises_only_Exception_def by blast
  then show "check_lmstudio self deps w = (Inr False, w')"
    using h by (simp add: check_lmstudio_def Let_def)
next
  fix code w'
  assume "http_get deps
                    ((case llm_base_url self of Some u \<Rightarrow> u | None \<Rightarrow> lmstudio_base_url self) @ ''/models'')
                    (check_timeout self) w = (Inr code, w') \<and> code \<noteq> 200"
  then show "check_lmstudio self deps w = (Inr False, w')"
    by (simp add: check_lmstudio_def Let_def)
qed

text \<open>With both dependencies down, readiness reports the two of them unhealthy.\<close>

theorem probes_never_raise_witness:
  "raises_only_Exception outage \<and>
   liveness sample_probes 10 =
     Inr [(''status'', Str ''healthy''), (''timestamp'', Isoformat 10), (''probe'', Str ''liveness'')] \<and>
   readiness sample_probes outage 10 () =
     (Inr [(''status'', Str ''unhealthy''), (''timestamp'', Isoformat 10),
           (''probe'', Str ''readiness''),
           (''checks'', Dict
              [(''elasticsearch'', Dict [(''status'', Str ''unhealthy''), (''required'', Bool True)]),
               (''lmstudio'', Dict [(''status'', Str ''unhealthy''), (''required'', Bool True)])])],
      ()) \<and>
   check_elasticsearch sample_probes outage () = (Inr False, ()) \<and>
   check_lmstudio sample_probes outage () = (Inr False, ())"
proof -
  have r: "raises_only_Exception outage"
    by (simp add: raises_only_Exception_def outage_def fixed_deps_def)
  have e: "es_cluster_health outage (elasticsearch_url sample_probes) (check_timeout sample_probes) () =
             (Inl (Exception ''ConnectionError'' ''Connection refused''), ())"
    by (simp add: outage_def fixed_deps_def)
  have h: "http_get outage
             ((case llm_base_url sample_probes of Some u \<Rightarrow> u
               | None \<Rightarrow> lmstudio_base_url sample_probes) @ ''/models'')
             (check_timeout sample_probes) () =
             (Inl (TimeoutException ''ConnectTimeout'' ''timed out''), ())"
    by (simp add: outage_def fixed_deps_def)
  note p = probes_never_raise [OF r, of sample_probes 10 "()"]
  have ce: "check_elasticsearch sample_probes outage () = (Inr False, ())"
    using p e by blast
  have cl: "check_lmstudio sample_probes outage () = (Inr False, ())"
    using p h by blast
  show ?thesis
    using r ce cl by (simp add: readiness_def liveness_def health_text_def)
qed

end
